theory Spec2Isabelle
  imports Main "HOL-Library.Multiset"
begin

section \<open>Exceptions\<close>

text \<open>
  The exceptions the two modules raise or catch by name, and those of their
  collaborators that pass through them, each but \<^verbatim>\<open>queue.Empty\<close> with its text.
  \<open>ConfigParserError\<close> stands for \<^verbatim>\<open>configparser.Error\<close> and its subclasses (the
  interpolation errors among them), \<open>OtherError\<close> for any exception of another class.
\<close>

datatype exn =
    Empty
  | ValueError string
  | UnicodeDecodeError string
  | AttributeError string
  | ConfigParserError string
  | PanConfigError string
  | OtherError string

text \<open>
  \<^verbatim>\<open>except ValueError\<close> catches a \<^verbatim>\<open>ValueError\<close> and an exception of its subclass
  \<^verbatim>\<open>UnicodeDecodeError\<close>, and no other exception of the list; \<open>exn_text\<close> is the text
  an exception is wrapped with.
\<close>

fun is_ValueError :: "exn \<Rightarrow> bool" where
  "is_ValueError (ValueError m) = True"
| "is_ValueError (UnicodeDecodeError m) = True"
| "is_ValueError _ = False"

fun exn_text :: "exn \<Rightarrow> string" where
  "exn_text Empty = []"
| "exn_text (ValueError m) = m"
| "exn_text (UnicodeDecodeError m) = m"
| "exn_text (AttributeError m) = m"
| "exn_text (ConfigParserError m) = m"
| "exn_text (PanConfigError m) = m"
| "exn_text (OtherError m) = m"

section \<open>pantalaimon/ui.py\<close>

subsection \<open>The queues\<close>

text \<open>
  Both queues are handed to \<^verbatim>\<open>GlibT\<close> by its creator; \<^verbatim>\<open>ui.py\<close> uses \<^verbatim>\<open>put\<close>,
  \<^verbatim>\<open>get_nowait\<close> and \<^verbatim>\<open>task_done\<close> of the standard \<^verbatim>\<open>queue.Queue\<close> interface
  (it imports \<^verbatim>\<open>queue.Empty\<close>). A queue is its pending items, oldest first, and the
  count of items put but not yet acknowledged by \<^verbatim>\<open>task_done\<close>. The queues are
  unbounded, so \<^verbatim>\<open>put\<close> never blocks; \<^verbatim>\<open>get_nowait\<close> raises \<^verbatim>\<open>Empty\<close> on an empty
  queue; \<^verbatim>\<open>task_done\<close> raises \<^verbatim>\<open>ValueError\<close> when more items are acknowledged than
  were put.
\<close>

record 'a queue =
  pending :: "'a list"
  unfinished_tasks :: nat

definition put :: "'a queue \<Rightarrow> 'a \<Rightarrow> 'a queue" where
  "put q x = q\<lparr>pending := pending q @ [x], unfinished_tasks := unfinished_tasks q + 1\<rparr>"

definition get_nowait :: "'a queue \<Rightarrow> exn + ('a \<times> 'a queue)" where
  "get_nowait q =
     (case pending q of
        [] \<Rightarrow> Inl Empty
      | x # xs \<Rightarrow> Inr (x, q\<lparr>pending := xs\<rparr>))"

definition task_done :: "'a queue \<Rightarrow> exn + 'a queue" where
  "task_done q =
     (if unfinished_tasks q = 0 then Inl (ValueError ''task_done() called too many times'')
      else Inr (q\<lparr>unfinished_tasks := unfinished_tasks q - 1\<rparr>))"

text \<open>
  The queue's own invariant: every pending item has been counted. It holds of the empty
  queue and is kept by \<^verbatim>\<open>put\<close> and by a \<^verbatim>\<open>get_nowait\<close> followed by one
  \<^verbatim>\<open>task_done\<close>.
\<close>

definition queue_ok :: "'a queue \<Rightarrow> bool" where
  "queue_ok q = (length (pending q) \<le> unfinished_tasks q)"

subsection \<open>Thread messages\<close>

text \<open>
  Modelled from the spec: the message classes of \<^verbatim>\<open>pantalaimon.thread_messages\<close> are
  imported by \<^verbatim>\<open>ui.py\<close> but their declarations are not among the sources. Each class
  that \<^verbatim>\<open>ui.py\<close> imports is a constructor; the fields are the constructor arguments and
  attributes \<^verbatim>\<open>ui.py\<close> uses, in its order (for a command: \<^verbatim>\<open>message_id\<close>,
  \<^verbatim>\<open>pan_user\<close>, then file path and passphrase or user id and device id; for a signal:
  \<^verbatim>\<open>pan_user\<close>, \<^verbatim>\<open>user_id\<close>, \<^verbatim>\<open>device_id\<close>, \<^verbatim>\<open>transaction_id\<close>).
  \<open>SasCancelledSignal\<close> is the spec's verification-cancelled event (section 3: the four
  fields of a verification event, a reason text and a machine-readable code); \<^verbatim>\<open>ui.py\<close>
  imports no class for it. \<open>OtherMessage\<close> stands for any other object found on a queue,
  and \<open>MalformedMessage c\<close> for an instance of the class named \<open>c\<close> that lacks its
  attributes: reading one of them, and formatting the instance, raises
  \<^verbatim>\<open>AttributeError\<close>.
\<close>

datatype message =
    ExportKeysMessage (message_id: int) string string string
  | ImportKeysMessage (message_id: int) string string string
  | DeviceVerifyMessage (message_id: int) string string string
  | DeviceUnverifyMessage (message_id: int) string string string
  | DeviceBlacklistMessage (message_id: int) string string string
  | DeviceUnblacklistMessage (message_id: int) string string string
  | StartSasMessage (message_id: int) string string string
  | CancelSasMessage (message_id: int) string string string
  | ConfirmSasMessage (message_id: int) string string string
  | AcceptSasMessage (message_id: int) string string string
  | UpdateDevicesMessage
  | UpdateUsersMessage
  | InviteSasSignal string string string string
  | ShowSasSignal string string string string "(string \<times> string) list"
  | SasDoneSignal string string string string
  | SasCancelledSignal string string string string string string
  | DaemonResponse (message_id: int) string string string
  | OtherMessage string
  | MalformedMessage string

subsection \<open>Signals\<close>

text \<open>
  The signals the two published objects declare (\<^verbatim>\<open>Control.Response\<close> and the four
  \<^verbatim>\<open>Devices.Verification*\<close>), with the arguments of their interface descriptions. The
  third argument of \<open>Response\<close> is the dictionary \<^verbatim>\<open>{"code": ..., "message": ...}\<close>.
\<close>

datatype notification =
    Response int string "(string \<times> string) list"
  | VerificationInvite string string string string
  | VerificationString string string string string "(string \<times> string) list"
  | VerificationCancel string string string string string string
  | VerificationDone string string string string

subsection \<open>Dictionaries and the device cache\<close>

text \<open>
  A Python dictionary whose order of values is observed is an association list in
  insertion order with distinct keys. \<^verbatim>\<open>d.get(k, None)\<close> is \<open>dict_get\<close>, \<^verbatim>\<open>d.values()\<close>
  is \<open>dict_values\<close>, and \<^verbatim>\<open>not d\<close> holds of \<open>None\<close> and of the empty dictionary.
\<close>

type_synonym ('k, 'v) dict = "('k \<times> 'v) list"

definition dict_get :: "('k, 'v) dict \<Rightarrow> 'k \<Rightarrow> 'v option" where
  "dict_get d k = map_of d k"

definition dict_values :: "('k, 'v) dict \<Rightarrow> 'v list" where
  "dict_values d = map snd d"

definition dict_ok :: "('k, 'v) dict \<Rightarrow> bool" where
  "dict_ok d = distinct (map fst d)"

text \<open>
  A device is the string dictionary of the interface description (\<^verbatim>\<open>a{ss}\<close>); the cache
  maps a pan user to a user id to a device id to the device.
\<close>

type_synonym device = "(string, string) dict"

type_synonym device_cache = "(string, (string, (string, device) dict) dict) dict"

text \<open>
  Modelled from the spec: \<^verbatim>\<open>pantalaimon.store.PanStore\<close> is not among the sources. The
  store is what its two loaders return at the moment they are called (section 6: the
  identities, and a snapshot of the device cache).
\<close>

record PanStore =
  stored_users :: "(string \<times> string) list"
  stored_devices :: device_cache

definition load_all_users :: "PanStore \<Rightarrow> (string \<times> string) list" where
  "load_all_users st = stored_users st"

definition load_all_devices :: "PanStore \<Rightarrow> device_cache" where
  "load_all_devices st = stored_devices st"

subsection \<open>IdCounter\<close>

record IdCounter =
  message_id_attr :: int

definition IdCounter_init :: IdCounter where
  "IdCounter_init = \<lparr>message_id_attr = 0\<rparr>"

definition IdCounter_message_id :: "IdCounter \<Rightarrow> int \<times> IdCounter" where
  "IdCounter_message_id c =
     (let ret = message_id_attr c
      in (ret, c\<lparr>message_id_attr := message_id_attr c + 1\<rparr>))"

subsection \<open>The bridge state\<close>

text \<open>
  \<^verbatim>\<open>GlibT.__attrs_post_init__\<close> creates one \<^verbatim>\<open>IdCounter\<close> and passes it, and the one
  send queue, to both \<^verbatim>\<open>Control\<close> and \<^verbatim>\<open>Devices\<close>; the store is shared by \<^verbatim>\<open>GlibT\<close>
  and \<^verbatim>\<open>Devices\<close>. The state therefore holds each shared object once, and the methods
  of both surfaces read and update that one copy. \<open>device_list\<close> is
  \<^verbatim>\<open>Devices.device_list\<close> (set to \<^verbatim>\<open>None\<close> and overwritten by \<^verbatim>\<open>update_devices\<close>
  before the constructor returns), \<open>users\<close> is \<^verbatim>\<open>Control.users\<close>, \<open>emitted\<close> lists the
  signals emitted on the bus, oldest first, and \<open>debug_log\<close> the messages that reached
  the logging statement of \<^verbatim>\<open>message_callback\<close>.

  The store and the bus are collaborators whose calls can raise, and nothing in
  \<^verbatim>\<open>ui.py\<close> catches what they raise. \<open>store_failure\<close> is the exception the store's
  loaders raise at present (a database that cannot be read), \<open>bus_failure\<close> the one
  that emitting a signal raises at present (a connection that is gone, a value the bus
  cannot marshal); each is \<open>None\<close> while the call returns.
\<close>

record GlibT =
  receive_queue :: "message queue"
  send_queue :: "message queue"
  store :: PanStore
  users :: "(string \<times> string) list"
  id_counter :: IdCounter
  device_list :: device_cache
  emitted :: "notification list"
  debug_log :: "message list"
  store_failure :: "exn option"
  bus_failure :: "exn option"

text \<open>
  Emitting a signal and reloading the cache: the new state, or the exception raised,
  in which case the state is as it was.
\<close>

definition emit :: "notification \<Rightarrow> GlibT \<Rightarrow> exn + GlibT" where
  "emit n self =
     (case bus_failure self of
        Some e \<Rightarrow> Inl e
      | None \<Rightarrow> Inr (self\<lparr>emitted := emitted self @ [n]\<rparr>))"

definition update_devices :: "GlibT \<Rightarrow> exn + GlibT" where
  "update_devices self =
     (case store_failure self of
        Some e \<Rightarrow> Inl e
      | None \<Rightarrow> Inr (self\<lparr>device_list := load_all_devices (store self)\<rparr>))"

text \<open>
  The bridge a constructor call that returns leaves behind: the store has loaded the
  users and, in the \<^verbatim>\<open>update_devices\<close> call of \<^verbatim>\<open>Devices.__init__\<close>, the cache, and
  the objects are published on the bus.
\<close>

definition attrs_post_init :: "message queue \<Rightarrow> message queue \<Rightarrow> PanStore \<Rightarrow> GlibT" where
  "attrs_post_init rq sq st =
     \<lparr>receive_queue = rq, send_queue = sq, store = st, users = load_all_users st,
      id_counter = IdCounter_init, device_list = load_all_devices st, emitted = [],
      debug_log = [], store_failure = None, bus_failure = None\<rparr>"

subsection \<open>Control\<close>

definition Control_message_id :: "GlibT \<Rightarrow> int \<times> GlibT" where
  "Control_message_id self =
     (case IdCounter_message_id (id_counter self) of
        (ret, c) \<Rightarrow> (ret, self\<lparr>id_counter := c\<rparr>))"

definition queue_put :: "message \<Rightarrow> GlibT \<Rightarrow> GlibT" where
  "queue_put m self = self\<lparr>send_queue := put (send_queue self) m\<rparr>"

definition ListUsers :: "GlibT \<Rightarrow> (string \<times> string) list" where
  "ListUsers self = users self"

definition ExportKeys :: "string \<Rightarrow> string \<Rightarrow> string \<Rightarrow> GlibT \<Rightarrow> int \<times> GlibT" where
  "ExportKeys pan_user filepath passphrase self =
     (case Control_message_id self of
        (mid, s1) \<Rightarrow>
          (let message = ExportKeysMessage mid pan_user filepath passphrase
           in (message_id message, queue_put message s1)))"

definition ImportKeys :: "string \<Rightarrow> string \<Rightarrow> string \<Rightarrow> GlibT \<Rightarrow> int \<times> GlibT" where
  "ImportKeys pan_user filepath passphrase self =
     (case Control_message_id self of
        (mid, s1) \<Rightarrow>
          (let message = ImportKeysMessage mid pan_user filepath passphrase
           in (message_id message, queue_put message s1)))"

subsection \<open>Devices\<close>

definition Devices_message_id :: "GlibT \<Rightarrow> int \<times> GlibT" where
  "Devices_message_id self =
     (case IdCounter_message_id (id_counter self) of
        (ret, c) \<Rightarrow> (ret, self\<lparr>id_counter := c\<rparr>))"

definition List :: "string \<Rightarrow> GlibT \<Rightarrow> device list" where
  "List pan_user self =
     (case dict_get (device_list self) pan_user of
        None \<Rightarrow> []
      | Some device_store \<Rightarrow>
          if device_store = [] then []
          else [device. devs \<leftarrow> dict_values device_store, device \<leftarrow> dict_values devs])"

definition ListUserDevices :: "string \<Rightarrow> string \<Rightarrow> GlibT \<Rightarrow> device list" where
  "ListUserDevices pan_user user_id self =
     (case dict_get (device_list self) pan_user of
        None \<Rightarrow> []
      | Some device_store \<Rightarrow>
          if device_store = [] then []
          else (case dict_get device_store user_id of
                  None \<Rightarrow> []
                | Some devs \<Rightarrow> if devs = [] then [] else dict_values devs))"

definition Verify :: "string \<Rightarrow> string \<Rightarrow> string \<Rightarrow> GlibT \<Rightarrow> int \<times> GlibT" where
  "Verify pan_user user_id device_id self =
     (case Devices_message_id self of
        (mid, s1) \<Rightarrow>
          (let message = DeviceVerifyMessage mid pan_user user_id device_id
           in (message_id message, queue_put message s1)))"

definition UnVerify :: "string \<Rightarrow> string \<Rightarrow> string \<Rightarrow> GlibT \<Rightarrow> int \<times> GlibT" where
  "UnVerify pan_user user_id device_id self =
     (case Devices_message_id self of
        (mid, s1) \<Rightarrow>
          (let message = DeviceUnverifyMessage mid pan_user user_id device_id
           in (message_id message, queue_put message s1)))"

definition StartKeyVerification :: "string \<Rightarrow> string \<Rightarrow> string \<Rightarrow> GlibT \<Rightarrow> int \<times> GlibT" where
  "StartKeyVerification pan_user user_id device_id self =
     (case Devices_message_id self of
        (mid, s1) \<Rightarrow>
          (let message = StartSasMessage mid pan_user user_id device_id
           in (message_id message, queue_put message s1)))"

definition CancelKeyVerification :: "string \<Rightarrow> string \<Rightarrow> string \<Rightarrow> GlibT \<Rightarrow> int \<times> GlibT" where
  "CancelKeyVerification pan_user user_id device_id self =
     (case Devices_message_id self of
        (mid, s1) \<Rightarrow>
          (let message = CancelSasMessage mid pan_user user_id device_id
           in (message_id message, queue_put message s1)))"

definition ConfirmKeyVerification :: "string \<Rightarrow> string \<Rightarrow> string \<Rightarrow> GlibT \<Rightarrow> int \<times> GlibT" where
  "ConfirmKeyVerification pan_user user_id device_id self =
     (case Devices_message_id self of
        (mid, s1) \<Rightarrow>
          (let message = ConfirmSasMessage mid pan_user user_id device_id
           in (message_id message, queue_put message s1)))"

definition AcceptKeyVerification :: "string \<Rightarrow> string \<Rightarrow> string \<Rightarrow> GlibT \<Rightarrow> int \<times> GlibT" where
  "AcceptKeyVerification pan_user user_id device_id self =
     (case Devices_message_id self of
        (mid, s1) \<Rightarrow>
          (let message = AcceptSasMessage mid pan_user user_id device_id
           in (message_id message, queue_put message s1)))"

subsection \<open>GlibT.message_callback\<close>

text \<open>
  The logging statement formats the message into its text before \<^verbatim>\<open>logger.debug\<close> is
  called; \<open>format_message\<close> is the exception this raises, if any. \<^verbatim>\<open>logger.debug\<close>
  itself is taken to return.
\<close>

fun format_message :: "message \<Rightarrow> exn option" where
  "format_message (MalformedMessage c) = Some (AttributeError c)"
| "format_message _ = None"

text \<open>
  The chain of \<^verbatim>\<open>isinstance\<close> tests, in the source's order; a message of any other class
  falls through it. The signals' arguments are the message's attributes, which an
  instance without attributes fails to give. The result is the new state, or the
  exception raised.
\<close>

fun dispatch :: "message \<Rightarrow> GlibT \<Rightarrow> exn + GlibT" where
  "dispatch UpdateDevicesMessage self = update_devices self"
| "dispatch (InviteSasSignal pan_user user_id device_id transaction_id) self =
     emit (VerificationInvite pan_user user_id device_id transaction_id) self"
| "dispatch (ShowSasSignal pan_user user_id device_id transaction_id emoji) self =
     emit (VerificationString pan_user user_id device_id transaction_id emoji) self"
| "dispatch (SasDoneSignal pan_user user_id device_id transaction_id) self =
     emit (VerificationDone pan_user user_id device_id transaction_id) self"
| "dispatch (DaemonResponse mid pan_user code msg) self =
     emit (Response mid pan_user [(''code'', code), (''message'', msg)]) self"
| "dispatch (MalformedMessage c) self =
     (if c = ''UpdateDevicesMessage'' then update_devices self
      else if c \<in> {''InviteSasSignal'', ''ShowSasSignal'', ''SasDoneSignal'', ''DaemonResponse''}
      then Inl (AttributeError c)
      else Inr self)"
| "dispatch _ self = Inr self"

text \<open>
  One invocation. The result is the value returned (\<open>True\<close> asks the host loop to call
  again) or the exception that leaves the callback, together with the state at that
  moment. Only \<^verbatim>\<open>Empty\<close> is caught: an exception raised by the logging statement or in
  a branch of the chain leaves the callback before \<^verbatim>\<open>task_done\<close> is reached.
\<close>

definition message_callback :: "GlibT \<Rightarrow> (exn + bool) \<times> GlibT" where
  "message_callback self =
     (case get_nowait (receive_queue self) of
        Inl e \<Rightarrow> if e = Empty then (Inr True, self) else (Inl e, self)
      | Inr (message, q) \<Rightarrow>
          (let s1 = self\<lparr>receive_queue := q, debug_log := debug_log self @ [message]\<rparr>
           in (case format_message message of
                 Some e \<Rightarrow> (Inl e, s1)
               | None \<Rightarrow>
                   (case dispatch message s1 of
                      Inl e \<Rightarrow> (Inl e, s1)
                    | Inr s2 \<Rightarrow>
                        (case task_done (receive_queue s2) of
                           Inl e \<Rightarrow> (Inl e, s2)
                         | Inr q' \<Rightarrow> (Inr True, s2\<lparr>receive_queue := q'\<rparr>))))))"

text \<open>
  The messages whose logging and dispatch return in a given state: the well-formed
  ones, provided the store loads when the message asks for a reload and the bus takes
  the signal when the message is relayed.
\<close>

fun relayed :: "message \<Rightarrow> bool" where
  "relayed (InviteSasSignal pan_user user_id device_id transaction_id) = True"
| "relayed (ShowSasSignal pan_user user_id device_id transaction_id emoji) = True"
| "relayed (SasDoneSignal pan_user user_id device_id transaction_id) = True"
| "relayed (DaemonResponse mid pan_user code msg) = True"
| "relayed _ = False"

definition accepted :: "message \<Rightarrow> GlibT \<Rightarrow> bool" where
  "accepted m self =
     (format_message m = None \<and>
      (m = UpdateDevicesMessage \<longrightarrow> store_failure self = None) \<and>
      (relayed m \<longrightarrow> bus_failure self = None))"

subsection \<open>Sequences of calls\<close>

text \<open>
  The eight command-issuing operations as values, so that a sequence of calls from the
  bus can be run against the one bridge state; \<open>perform_all\<close> returns the ids in the
  order the calls returned them.
\<close>

datatype call =
    CallExportKeys string string string
  | CallImportKeys string string string
  | CallVerify string string string
  | CallUnVerify string string string
  | CallStartKeyVerification string string string
  | CallCancelKeyVerification string string string
  | CallAcceptKeyVerification string string string
  | CallConfirmKeyVerification string string string

fun perform :: "call \<Rightarrow> GlibT \<Rightarrow> int \<times> GlibT" where
  "perform (CallExportKeys a b c) self = ExportKeys a b c self"
| "perform (CallImportKeys a b c) self = ImportKeys a b c self"
| "perform (CallVerify a b c) self = Verify a b c self"
| "perform (CallUnVerify a b c) self = UnVerify a b c self"
| "perform (CallStartKeyVerification a b c) self = StartKeyVerification a b c self"
| "perform (CallCancelKeyVerification a b c) self = CancelKeyVerification a b c self"
| "perform (CallAcceptKeyVerification a b c) self = AcceptKeyVerification a b c self"
| "perform (CallConfirmKeyVerification a b c) self = ConfirmKeyVerification a b c self"

fun perform_all :: "call list \<Rightarrow> GlibT \<Rightarrow> int list \<times> GlibT" where
  "perform_all [] self = ([], self)"
| "perform_all (c # cs) self =
     (case perform c self of
        (i, s1) \<Rightarrow> (case perform_all cs s1 of (ids, s2) \<Rightarrow> (i # ids, s2)))"

subsection \<open>The host loop\<close>

text \<open>
  \<^verbatim>\<open>GlibT.run\<close> registers the callback with \<^verbatim>\<open>GLib.timeout_add\<close>, which calls it again
  for as long as it returns \<open>True\<close>. \<open>ticks n\<close> is the first \<open>n\<close> of these calls: the
  results in order, and the state after the last one.
\<close>

fun ticks :: "nat \<Rightarrow> GlibT \<Rightarrow> (exn + bool) list \<times> GlibT" where
  "ticks 0 self = ([], self)"
| "ticks (Suc n) self =
     (case message_callback self of
        (r, s1) \<Rightarrow>
          if r = Inr True then (case ticks n s1 of (rs, s2) \<Rightarrow> (r # rs, s2))
          else ([r], s1))"

subsection \<open>An example bridge\<close>

text \<open>
  A store with two identities, one of which sees three devices of two users, and the
  bridge constructed over it with the given messages already put on its receive queue.
\<close>

definition empty_queue :: "message queue" where
  "empty_queue = \<lparr>pending = [], unfinished_tasks = 0\<rparr>"

definition example_store :: PanStore where
  "example_store =
     \<lparr>stored_users = [(''alice'', ''ALICEDEV'')],
      stored_devices =
        [(''alice'',
          [(''bob'', [(''DEV1'', [(''user_id'', ''bob''), (''device_id'', ''DEV1'')]),
                      (''DEV2'', [(''user_id'', ''bob''), (''device_id'', ''DEV2'')])]),
           (''dave'', [(''DEV3'', [(''user_id'', ''dave''), (''device_id'', ''DEV3'')])])]),
         (''erin'', [])]\<rparr>"

definition example_bridge :: "message list \<Rightarrow> GlibT" where
  "example_bridge ms =
     attrs_post_init (foldl put empty_queue ms) empty_queue example_store"

section \<open>pantalaimon/config.py\<close>

subsection \<open>Strings\<close>

text \<open>
  A string is a sequence of code points below 256. \<^verbatim>\<open>str.lower\<close> maps the capital
  letters of that range (A to Z, and U+00C0 to U+00DE without the multiplication sign
  U+00D7) to the code point 32 above, and leaves every other character as it is.
\<close>

definition lower_char :: "char \<Rightarrow> char" where
  "lower_char c =
     (let n = (of_char c :: nat)
      in if (65 \<le> n \<and> n \<le> 90) \<or> (192 \<le> n \<and> n \<le> 222 \<and> n \<noteq> 215)
         then char_of (n + 32) else c)"

definition lower :: "string \<Rightarrow> string" where
  "lower s = map lower_char s"

subsection \<open>Library values\<close>

text \<open>
  The four \<^verbatim>\<open>logbook\<close> levels the module names, an address of \<^verbatim>\<open>ipaddress\<close> (its
  version and its integer value, which is what its equality and hash compare) and the
  six-field result of \<^verbatim>\<open>urllib.parse.urlparse\<close>.
\<close>

datatype level = INFO | WARNING | ERROR | DEBUG

datatype ip_addr = IPv4Address nat | IPv6Address nat

record ParseResult =
  scheme :: string
  netloc :: string
  path :: string
  params :: string
  query :: string
  fragment :: string

text \<open>
  The library functions the module calls are parameters of the model: \<^verbatim>\<open>ip_address\<close>,
  \<^verbatim>\<open>urlparse\<close>, the \<^verbatim>\<open>port\<close> property of a parse result, and the conversions behind
  \<^verbatim>\<open>getint\<close> and \<^verbatim>\<open>getboolean\<close>. Each returns its value, or the message of the
  \<^verbatim>\<open>ValueError\<close> it raises.
\<close>

record stdlib =
  ip_address :: "string \<Rightarrow> string + ip_addr"
  urlparse :: "string \<Rightarrow> string + ParseResult"
  port :: "ParseResult \<Rightarrow> string + int option"
  int_of_str :: "string \<Rightarrow> string + int"
  convert_to_boolean :: "string \<Rightarrow> string + bool"

definition raising :: "string + 'a \<Rightarrow> exn + 'a" where
  "raising r = (case r of Inl m \<Rightarrow> Inl (ValueError m) | Inr x \<Rightarrow> Inr x)"

subsection \<open>The converters\<close>

definition parse_address :: "stdlib \<Rightarrow> string \<Rightarrow> exn + ip_addr" where
  "parse_address L v =
     (if v = ''localhost'' then raising (ip_address L ''127.0.0.1'')
      else raising (ip_address L v))"

definition parse_url :: "stdlib \<Rightarrow> string \<Rightarrow> exn + ParseResult" where
  "parse_url L v =
     (case raising (urlparse L v) of
        Inl e \<Rightarrow> Inl e
      | Inr u \<Rightarrow>
          if scheme u \<notin> {''http'', ''https''}
          then Inl (ValueError (''Invalid URL scheme '' @ scheme u @
                      ''. Only HTTP(s) URLs are allowed''))
          else (case raising (port L u) of
                  Inl e \<Rightarrow> Inl e
                | Inr p \<Rightarrow> Inr u))"

definition parse_log_level :: "string \<Rightarrow> level" where
  "parse_log_level v0 =
     (let v = lower v0
      in if v = ''info'' then INFO
         else if v = ''warning'' then WARNING
         else if v = ''error'' then ERROR
         else if v = ''debug'' then DEBUG
         else WARNING)"

subsection \<open>PanConfigParser\<close>

text \<open>
  The defaults \<^verbatim>\<open>PanConfigParser.__init__\<close> passes to \<^verbatim>\<open>ConfigParser\<close>.
\<close>

definition PanConfigParser_defaults :: "(string, string) dict" where
  "PanConfigParser_defaults =
     [(''SSL'', ''True''), (''ListenAddress'', ''localhost''), (''ListenPort'', ''8009''),
      (''LogLevel'', ''warnig'')]"

text \<open>
  A section is seen through its proxy: \<open>sec opt\<close> is what fetching the option \<open>opt\<close>
  gives, as every getter of the proxy does first. It is the string fetched (the
  section's own value, else the default section's, after the parser's interpolation),
  \<open>None\<close> when the option is set nowhere, or the \<^verbatim>\<open>configparser\<close> error that the
  interpolation of the value raises. A parser that has read a file is the proxy of its
  default section and its other sections in the order of the file;
  \<^verbatim>\<open>config.items()\<close> yields the default section first.
\<close>

type_synonym SectionProxy = "string \<Rightarrow> exn + string option"

record PanConfigParser =
  default_section :: SectionProxy
  file_sections :: "(string \<times> SectionProxy) list"

definition config_items :: "PanConfigParser \<Rightarrow> (string \<times> SectionProxy) list" where
  "config_items config = (''Default'', default_section config) # file_sections config"

text \<open>
  A converting getter of a proxy (\<^verbatim>\<open>getint\<close>, \<^verbatim>\<open>getboolean\<close> and the three the
  \<^verbatim>\<open>converters\<close> argument adds) fetches the option, which can raise; it returns
  \<open>None\<close> for an option set nowhere, and otherwise applies its converter to the fetched
  string.
\<close>

definition get_conv :: "(string \<Rightarrow> exn + 'a) \<Rightarrow> SectionProxy \<Rightarrow> string \<Rightarrow> exn + 'a option" where
  "get_conv conv sec opt =
     (case sec opt of
        Inl e \<Rightarrow> Inl e
      | Inr None \<Rightarrow> Inr None
      | Inr (Some v) \<Rightarrow> (case conv v of Inl e \<Rightarrow> Inl e | Inr x \<Rightarrow> Inr (Some x)))"

definition getaddress :: "stdlib \<Rightarrow> SectionProxy \<Rightarrow> string \<Rightarrow> exn + ip_addr option" where
  "getaddress L = get_conv (parse_address L)"

definition geturl :: "stdlib \<Rightarrow> SectionProxy \<Rightarrow> string \<Rightarrow> exn + ParseResult option" where
  "geturl L = get_conv (parse_url L)"

definition getloglevel :: "SectionProxy \<Rightarrow> string \<Rightarrow> exn + level option" where
  "getloglevel = get_conv (\<lambda>v. Inr (parse_log_level v))"

definition getint :: "stdlib \<Rightarrow> SectionProxy \<Rightarrow> string \<Rightarrow> exn + int option" where
  "getint L = get_conv (\<lambda>v. raising (int_of_str L v))"

definition getboolean :: "stdlib \<Rightarrow> SectionProxy \<Rightarrow> string \<Rightarrow> exn + bool option" where
  "getboolean L = get_conv (\<lambda>v. raising (convert_to_boolean L v))"

subsection \<open>ServerConfig and PanConfig\<close>

record ServerConfig =
  homeserver :: ParseResult
  listen_address :: "ip_addr option"
  listen_port :: "int option"
  proxy :: "ParseResult option"
  ssl :: "bool option"

record PanConfig =
  config_file :: string
  log_level :: "level option"
  servers :: "string \<rightharpoonup> ServerConfig"

text \<open>
  The loop of \<^verbatim>\<open>PanConfig.read\<close> over \<^verbatim>\<open>config.items()\<close>, with the set of listen
  tuples seen so far and the servers stored so far. The first exception ends it.
\<close>

fun read_sections ::
  "stdlib \<Rightarrow> (string \<times> SectionProxy) list \<Rightarrow> (ip_addr option \<times> int option) set \<Rightarrow>
   (string \<rightharpoonup> ServerConfig) \<Rightarrow> exn + (string \<rightharpoonup> ServerConfig)" where
  "read_sections L [] listen_set srv = Inr srv"
| "read_sections L ((section_name, sec) # rest) listen_set srv =
     (if section_name = ''Default'' then read_sections L rest listen_set srv
      else
        case geturl L sec ''Homeserver'' of
          Inl e \<Rightarrow> Inl e
        | Inr None \<Rightarrow>
            Inl (PanConfigError (''Homserver is not set for section '' @ section_name))
        | Inr (Some hs) \<Rightarrow>
       (case getaddress L sec ''ListenAddress'' of
          Inl e \<Rightarrow> Inl e
        | Inr address \<Rightarrow>
       (case getint L sec ''ListenPort'' of
          Inl e \<Rightarrow> Inl e
        | Inr prt \<Rightarrow>
       (case getboolean L sec ''SSL'' of
          Inl e \<Rightarrow> Inl e
        | Inr use_ssl \<Rightarrow>
       (case geturl L sec ''Proxy'' of
          Inl e \<Rightarrow> Inl e
        | Inr prx \<Rightarrow>
            (let listen_tuple = (address, prt)
             in if listen_tuple \<in> listen_set
                then Inl (PanConfigError
                       (''The listen address/port combination for section '' @ section_name @
                        '' was already defined before.''))
                else read_sections L rest (insert listen_tuple listen_set)
                       (srv(section_name \<mapsto>
                          \<lparr>homeserver = hs, listen_address = address, listen_port = prt,
                           proxy = prx, ssl = use_ssl\<rparr>))))))))"

text \<open>
  \<open>read\<close> takes what \<^verbatim>\<open>config.read\<close> made of the file: the exception it raised (a
  \<^verbatim>\<open>configparser\<close> error for a file it cannot parse, a \<^verbatim>\<open>UnicodeDecodeError\<close> for one
  it cannot decode), or the parser. The first handler catches \<^verbatim>\<open>configparser.Error\<close>
  only, and only around \<^verbatim>\<open>config.read\<close>; the log level is fetched outside every
  handler; the handler around the loop catches \<^verbatim>\<open>ValueError\<close> only. What a handler
  catches is raised again as \<^verbatim>\<open>PanConfigError\<close>, and every other exception leaves
  \<open>read\<close> as it is. The result is the exception, or the configuration object as the
  call leaves it.
\<close>

definition read :: "stdlib \<Rightarrow> exn + PanConfigParser \<Rightarrow> PanConfig \<Rightarrow> exn + PanConfig" where
  "read L parsed self =
     (case parsed of
        Inl e \<Rightarrow>
          (case e of
             ConfigParserError m \<Rightarrow> Inl (PanConfigError m)
           | _ \<Rightarrow> Inl e)
      | Inr config \<Rightarrow>
          (case (if log_level self = None
                 then getloglevel (default_section config) ''LogLevel''
                 else Inr (log_level self)) of
             Inl e \<Rightarrow> Inl e
           | Inr lvl \<Rightarrow>
               (case read_sections L (config_items config) {} (servers self) of
                  Inl e \<Rightarrow>
                    if is_ValueError e then Inl (PanConfigError (exn_text e)) else Inl e
                | Inr srv \<Rightarrow> Inr (self\<lparr>log_level := lvl, servers := srv\<rparr>))))"

text \<open>
  The listen tuples of the sections other than the default one, each as its two getters
  give it.
\<close>

definition listen_tuples ::
  "stdlib \<Rightarrow> (string \<times> SectionProxy) list \<Rightarrow>
   ((exn + ip_addr option) \<times> (exn + int option)) list" where
  "listen_tuples L secs =
     map (\<lambda>(name, sec). (getaddress L sec ''ListenAddress'', getint L sec ''ListenPort''))
       (filter (\<lambda>(name, sec). name \<noteq> ''Default'') secs)"

text \<open>
  A section the loop finds nothing wrong with on its own: its homeserver is set and
  every getter returns.
\<close>

definition section_ok :: "stdlib \<Rightarrow> SectionProxy \<Rightarrow> bool" where
  "section_ok L sec =
     (\<not> isl (geturl L sec ''Homeserver'') \<and> geturl L sec ''Homeserver'' \<noteq> Inr None \<and>
      \<not> isl (getaddress L sec ''ListenAddress'') \<and> \<not> isl (getint L sec ''ListenPort'') \<and>
      \<not> isl (getboolean L sec ''SSL'') \<and> \<not> isl (geturl L sec ''Proxy''))"

subsection \<open>An example configuration\<close>

text \<open>
  The library functions on the strings of the examples, and the proxy of a section with
  the given options of its own over the parser's defaults. None of the examples' values
  holds a reference the interpolation accepts, so a value with a percent sign fails to
  interpolate.
\<close>

definition example_lib :: stdlib where
  "example_lib =
     \<lparr>ip_address = (\<lambda>s.
        if s = ''127.0.0.1'' then Inr (IPv4Address 2130706433)
        else if s = ''0.0.0.0'' then Inr (IPv4Address 0)
        else Inl (s @ '' does not appear to be an IPv4 or IPv6 address'')),
      urlparse = (\<lambda>s.
        if s = ''https://example.org''
        then Inr \<lparr>scheme = ''https'', netloc = ''example.org'', path = [], params = [],
                  query = [], fragment = []\<rparr>
        else Inr \<lparr>scheme = [], netloc = [], path = s, params = [], query = [],
                  fragment = []\<rparr>),
      port = (\<lambda>u. Inr None),
      int_of_str = (\<lambda>s.
        if s = ''8009'' then Inr 8009
        else if s = ''8010'' then Inr 8010
        else Inl (''invalid literal for int() with base 10: '' @ s)),
      convert_to_boolean = (\<lambda>s.
        if lower s = ''true'' then Inr True
        else if lower s = ''false'' then Inr False
        else Inl (''Not a boolean: '' @ s))\<rparr>"

definition example_proxy :: "(string, string) dict \<Rightarrow> SectionProxy" where
  "example_proxy own opt =
     (case (case dict_get own opt of
              Some v \<Rightarrow> Some v
            | None \<Rightarrow> dict_get PanConfigParser_defaults opt) of
        None \<Rightarrow> Inr None
      | Some v \<Rightarrow>
          if CHR ''%'' \<in> set v
          then Inl (ConfigParserError
                 (''% must be followed by % or (, found: '' @ dropWhile (\<lambda>c. c \<noteq> CHR ''%'') v))
          else Inr (Some v))"

definition example_config :: PanConfig where
  "example_config = \<lparr>config_file = ''pantalaimon.conf'', log_level = None, servers = Map.empty\<rparr>"

section \<open>Properties of pantalaimon/ui.py\<close>

subsection \<open>Correlation ids\<close>

lemmas op_defs = ExportKeys_def ImportKeys_def Verify_def UnVerify_def StartKeyVerification_def
  CancelKeyVerification_def ConfirmKeyVerification_def AcceptKeyVerification_def
  Control_message_id_def Devices_message_id_def IdCounter_message_id_def queue_put_def

lemmas example_defs = example_bridge_def empty_queue_def example_store_def attrs_post_init_def
  update_devices_def load_all_devices_def load_all_users_def IdCounter_init_def put_def

lemma perform_fst: "fst (perform c s) = message_id_attr (id_counter s)"
  by (cases c) (simp_all add: op_defs Let_def)

lemma perform_counter:
  "message_id_attr (id_counter (snd (perform c s))) = message_id_attr (id_counter s) + 1"
  by (cases c) (simp_all add: op_defs Let_def)

lemma perform_device_list: "device_list (snd (perform c s)) = device_list s"
  by (cases c) (simp_all add: op_defs Let_def)

text \<open>
  The ids a sequence of calls returns count up from the counter's value at the start.
\<close>

lemma perform_all_ids:
  "fst (perform_all cs s) = map (\<lambda>k. message_id_attr (id_counter s) + int k) [0..<length cs]"
proof (induction cs arbitrary: s)
  case Nil
  show ?case by simp
next
  case (Cons c cs)
  obtain i s1 where p: "perform c s = (i, s1)" by (cases "perform c s")
  obtain ids s2 where q: "perform_all cs s1 = (ids, s2)" by (cases "perform_all cs s1")
  have i: "i = message_id_attr (id_counter s)" using perform_fst [of c s] p by simp
  have c1: "message_id_attr (id_counter s1) = message_id_attr (id_counter s) + 1"
    using perform_counter [of c s] p by simp
  have "ids = map (\<lambda>k. message_id_attr (id_counter s1) + int k) [0..<length cs]"
    using Cons.IH [of s1] q by simp
  then have ids: "ids = map (\<lambda>k. message_id_attr (id_counter s) + int (Suc k)) [0..<length cs]"
    using c1 by simp
  have "[0..<length (c # cs)] = 0 # map Suc [0..<length cs]"
    by (simp add: upt_conv_Cons map_Suc_upt del: upt_Suc)
  then show ?case using p q i ids by (simp add: comp_def del: upt_Suc)
qed

text \<open>
  C2. Whatever sequence of the eight command-issuing operations of \<^verbatim>\<open>Control\<close> and
  \<^verbatim>\<open>Devices\<close> is run against a bridge (whose two surfaces share the one counter), the
  ids returned are strictly increasing in the order of the calls, hence pairwise
  distinct; on a freshly constructed bridge they are 0, 1, 2, ...
\<close>

theorem correlation_ids_strictly_increasing:
  "sorted_wrt (<) (fst (perform_all cs s)) \<and> distinct (fst (perform_all cs s)) \<and>
   fst (perform_all cs (attrs_post_init rq sq st)) = map int [0..<length cs]"
proof -
  let ?c = "message_id_attr (id_counter s)"
  have s: "sorted_wrt (<) (map (\<lambda>k. ?c + int k) [0..<length cs])"
    by (simp add: sorted_wrt_map sorted_wrt_upt del: upt_Suc)
  have d: "distinct (map (\<lambda>k. ?c + int k) [0..<length cs])"
    by (simp add: distinct_map inj_on_def)
  have z: "message_id_attr (id_counter (attrs_post_init rq sq st)) = 0"
    by (simp add: attrs_post_init_def update_devices_def IdCounter_init_def)
  show ?thesis using s d z by (simp add: perform_all_ids del: upt_Suc)
qed

theorem correlation_ids_strictly_increasing_witness:
  "fst (perform_all
          [CallExportKeys ''alice'' ''/tmp/k.txt'' ''pw'', CallVerify ''alice'' ''bob'' ''DEV1'',
           CallImportKeys ''alice'' ''/tmp/k.txt'' ''pw'']
          (example_bridge [])) = [0, 1, 2] \<and>
   sorted_wrt (<) (fst (perform_all
          [CallExportKeys ''alice'' ''/tmp/k.txt'' ''pw'', CallVerify ''alice'' ''bob'' ''DEV1'',
           CallImportKeys ''alice'' ''/tmp/k.txt'' ''pw'']
          (example_bridge [])))"
  using correlation_ids_strictly_increasing
    [of "[CallExportKeys ''alice'' ''/tmp/k.txt'' ''pw'', CallVerify ''alice'' ''bob'' ''DEV1'',
          CallImportKeys ''alice'' ''/tmp/k.txt'' ''pw'']" "example_bridge []"]
  by (simp add: op_defs example_defs)

subsection \<open>Export and import\<close>

text \<open>
  C5. A call of \<^verbatim>\<open>ExportKeys\<close> (of \<^verbatim>\<open>ImportKeys\<close>) appends exactly one message to the
  send queue: an \<^verbatim>\<open>ExportKeysMessage\<close> (\<^verbatim>\<open>ImportKeysMessage\<close>) holding the pan user,
  the file path and the passphrase as given and the id just taken from the counter; the
  call returns that id, and the counter has moved past it.
\<close>

theorem export_import_enqueue_one_command:
  "(case ExportKeys pan_user filepath passphrase s of
      (i, s') \<Rightarrow>
        pending (send_queue s') =
          pending (send_queue s) @ [ExportKeysMessage i pan_user filepath passphrase] \<and>
        i = message_id_attr (id_counter s) \<and>
        message_id_attr (id_counter s') = i + 1) \<and>
   (case ImportKeys pan_user filepath passphrase s of
      (i, s') \<Rightarrow>
        pending (send_queue s') =
          pending (send_queue s) @ [ImportKeysMessage i pan_user filepath passphrase] \<and>
        i = message_id_attr (id_counter s) \<and>
        message_id_attr (id_counter s') = i + 1)"
  by (simp add: ExportKeys_def ImportKeys_def Control_message_id_def IdCounter_message_id_def
      queue_put_def put_def Let_def)

subsection \<open>The dispatch loop\<close>

text \<open>
  A branch of the chain that returns leaves the queues, the counter, the log, the store
  and the two collaborators' conditions as they were, emits at most one signal, and
  changes the cache only for an \<^verbatim>\<open>UpdateDevicesMessage\<close>.
\<close>

lemma dispatch_frame:
  assumes "dispatch m s = Inr s'"
  shows "receive_queue s' = receive_queue s" and "send_queue s' = send_queue s"
    and "id_counter s' = id_counter s" and "debug_log s' = debug_log s"
    and "store s' = store s" and "store_failure s' = store_failure s"
    and "bus_failure s' = bus_failure s"
  using assms
  by (cases m; auto simp: update_devices_def emit_def split: option.splits if_splits)+

lemma dispatch_emitted:
  "dispatch m s = Inr s' \<Longrightarrow> \<exists>ns. emitted s' = emitted s @ ns \<and> length ns \<le> 1"
  by (cases m; auto simp: update_devices_def emit_def split: option.splits if_splits)

lemma dispatch_device_list:
  "format_message m = None \<Longrightarrow> dispatch m s = Inr s' \<Longrightarrow>
   device_list s' =
     (if m = UpdateDevicesMessage then load_all_devices (store s) else device_list s)"
  by (cases m; auto simp: update_devices_def emit_def split: option.splits if_splits)

lemma dispatch_accepted:
  "accepted m s = (format_message m = None \<and> (\<exists>s'. dispatch m s = Inr s'))"
  by (cases m; auto simp: accepted_def update_devices_def emit_def split: option.splits)

lemma accepted_same_conditions:
  "store_failure s' = store_failure s \<Longrightarrow> bus_failure s' = bus_failure s \<Longrightarrow>
   accepted m s' = accepted m s"
  by (simp add: accepted_def)

lemma callback_empty:
  "pending (receive_queue s) = [] \<Longrightarrow> message_callback s = (Inr True, s)"
  by (simp add: message_callback_def get_nowait_def)

text \<open>
  An invocation on a queue that is not empty, by what the logging statement and the
  chain do with the first message.
\<close>

lemma callback_format_raises:
  "pending (receive_queue s) = m # ms \<Longrightarrow> format_message m = Some e \<Longrightarrow>
   message_callback s =
     (Inl e, s\<lparr>receive_queue := (receive_queue s)\<lparr>pending := ms\<rparr>,
               debug_log := debug_log s @ [m]\<rparr>)"
  by (simp add: message_callback_def get_nowait_def Let_def)

lemma callback_dispatch_raises:
  "pending (receive_queue s) = m # ms \<Longrightarrow> format_message m = None \<Longrightarrow>
   dispatch m (s\<lparr>receive_queue := (receive_queue s)\<lparr>pending := ms\<rparr>,
                 debug_log := debug_log s @ [m]\<rparr>) = Inl e \<Longrightarrow>
   message_callback s =
     (Inl e, s\<lparr>receive_queue := (receive_queue s)\<lparr>pending := ms\<rparr>,
               debug_log := debug_log s @ [m]\<rparr>)"
  by (simp add: message_callback_def get_nowait_def Let_def)

lemma callback_dispatch_returns:
  assumes "pending (receive_queue s) = m # ms" and "format_message m = None"
    and "dispatch m (s\<lparr>receive_queue := (receive_queue s)\<lparr>pending := ms\<rparr>,
                 debug_log := debug_log s @ [m]\<rparr>) = Inr s2"
  shows "message_callback s =
     (if unfinished_tasks (receive_queue s) = 0
      then (Inl (ValueError ''task_done() called too many times''), s2)
      else (Inr True, s2\<lparr>receive_queue := (receive_queue s)\<lparr>pending := ms,
               unfinished_tasks := unfinished_tasks (receive_queue s) - 1\<rparr>\<rparr>))"
  using assms dispatch_frame(1) [OF assms(3)]
  by (simp add: message_callback_def get_nowait_def task_done_def Let_def)

text \<open>
  C3. One invocation of \<^verbatim>\<open>message_callback\<close> takes at most one message off the receive
  queue: on an empty queue it returns \<open>True\<close> and leaves the whole state as it was; in
  every case the queue afterwards is the queue before without its first message, only
  that message is logged, and at most one signal is emitted.
\<close>

theorem callback_processes_at_most_one:
  "(pending (receive_queue s) = [] \<longrightarrow> message_callback s = (Inr True, s)) \<and>
   pending (receive_queue (snd (message_callback s))) = drop 1 (pending (receive_queue s)) \<and>
   debug_log (snd (message_callback s)) = debug_log s @ take 1 (pending (receive_queue s)) \<and>
   (\<exists>ns. emitted (snd (message_callback s)) = emitted s @ ns \<and> length ns \<le> 1)"
proof (cases "pending (receive_queue s)")
  case Nil
  then show ?thesis by (simp add: callback_empty)
next
  case (Cons m ms)
  let ?s1 = "s\<lparr>receive_queue := (receive_queue s)\<lparr>pending := ms\<rparr>,
              debug_log := debug_log s @ [m]\<rparr>"
  show ?thesis
  proof (cases "format_message m")
    case (Some e)
    show ?thesis using Cons by (simp add: callback_format_raises [OF Cons Some])
  next
    case None
    show ?thesis
    proof (cases "dispatch m ?s1")
      case (Inl e)
      show ?thesis using Cons by (simp add: callback_dispatch_raises [OF Cons None Inl])
    next
      case (Inr s2)
      obtain ns where ns: "emitted s2 = emitted s @ ns" "length ns \<le> 1"
        using dispatch_emitted [OF Inr] by auto
      show ?thesis
        using Cons ns dispatch_frame [OF Inr]
        by (simp add: callback_dispatch_returns [OF Cons None Inr])
    qed
  qed
qed

theorem callback_processes_at_most_one_witness:
  "message_callback (example_bridge []) = (Inr True, example_bridge []) \<and>
   pending (receive_queue (snd (message_callback
      (example_bridge [InviteSasSignal ''alice'' ''bob'' ''DEV1'' ''txn1'',
                       SasDoneSignal ''alice'' ''bob'' ''DEV1'' ''txn1'']))))
     = [SasDoneSignal ''alice'' ''bob'' ''DEV1'' ''txn1''] \<and>
   emitted (snd (message_callback
      (example_bridge [InviteSasSignal ''alice'' ''bob'' ''DEV1'' ''txn1'',
                       SasDoneSignal ''alice'' ''bob'' ''DEV1'' ''txn1''])))
     = [VerificationInvite ''alice'' ''bob'' ''DEV1'' ''txn1'']"
proof -
  have e: "pending (receive_queue (example_bridge [])) = []"
    by (simp add: example_defs)
  have p: "pending (receive_queue
             (example_bridge [InviteSasSignal ''alice'' ''bob'' ''DEV1'' ''txn1'',
                              SasDoneSignal ''alice'' ''bob'' ''DEV1'' ''txn1''])) =
           [InviteSasSignal ''alice'' ''bob'' ''DEV1'' ''txn1'',
            SasDoneSignal ''alice'' ''bob'' ''DEV1'' ''txn1'']"
    by (simp add: example_defs)
  have m: "emitted (snd (message_callback
      (example_bridge [InviteSasSignal ''alice'' ''bob'' ''DEV1'' ''txn1'',
                       SasDoneSignal ''alice'' ''bob'' ''DEV1'' ''txn1''])))
     = [VerificationInvite ''alice'' ''bob'' ''DEV1'' ''txn1'']"
    by (simp add: example_defs message_callback_def get_nowait_def task_done_def emit_def)
  show ?thesis
    using callback_processes_at_most_one [of "example_bridge []"]
      callback_processes_at_most_one
        [of "example_bridge [InviteSasSignal ''alice'' ''bob'' ''DEV1'' ''txn1'',
                             SasDoneSignal ''alice'' ''bob'' ''DEV1'' ''txn1'']"]
      e p m
    by simp
qed

text \<open>
  The invariant of a queue holds when it is created and after every \<^verbatim>\<open>put\<close>.
\<close>

lemma queue_ok_empty: "queue_ok empty_queue"
  by (simp add: queue_ok_def empty_queue_def)

lemma queue_ok_put: "queue_ok q \<Longrightarrow> queue_ok (put q x)"
  by (simp add: queue_ok_def put_def)

text \<open>
  An invocation whose first message is accepted acknowledges it and returns \<open>True\<close>;
  one whose first message is not accepted ends in an exception with the message taken
  off the queue and not acknowledged. Neither changes the collaborators' conditions.
\<close>

lemma callback_accepted_step:
  assumes "pending (receive_queue s) = m # ms" and "queue_ok (receive_queue s)"
    and "accepted m s"
  shows "fst (message_callback s) = Inr True"
    and "pending (receive_queue (snd (message_callback s))) = ms"
    and "unfinished_tasks (receive_queue (snd (message_callback s))) =
           unfinished_tasks (receive_queue s) - 1"
    and "queue_ok (receive_queue (snd (message_callback s)))"
    and "debug_log (snd (message_callback s)) = debug_log s @ [m]"
    and "store_failure (snd (message_callback s)) = store_failure s"
    and "bus_failure (snd (message_callback s)) = bus_failure s"
proof -
  let ?s1 = "s\<lparr>receive_queue := (receive_queue s)\<lparr>pending := ms\<rparr>,
              debug_log := debug_log s @ [m]\<rparr>"
  have "accepted m ?s1" using assms(3) by (simp add: accepted_def)
  then obtain s2 where f: "format_message m = None" and d: "dispatch m ?s1 = Inr s2"
    by (auto simp: dispatch_accepted)
  have cb: "message_callback s =
     (if unfinished_tasks (receive_queue s) = 0
      then (Inl (ValueError ''task_done() called too many times''), s2)
      else (Inr True, s2\<lparr>receive_queue := (receive_queue s)\<lparr>pending := ms,
               unfinished_tasks := unfinished_tasks (receive_queue s) - 1\<rparr>\<rparr>))"
    by (rule callback_dispatch_returns [OF assms(1) f d])
  have pos: "unfinished_tasks (receive_queue s) \<noteq> 0"
    using assms(1,2) by (simp add: queue_ok_def)
  show "fst (message_callback s) = Inr True"
    and "pending (receive_queue (snd (message_callback s))) = ms"
    and "unfinished_tasks (receive_queue (snd (message_callback s))) =
           unfinished_tasks (receive_queue s) - 1"
    and "queue_ok (receive_queue (snd (message_callback s)))"
    and "debug_log (snd (message_callback s)) = debug_log s @ [m]"
    and "store_failure (snd (message_callback s)) = store_failure s"
    and "bus_failure (snd (message_callback s)) = bus_failure s"
    using cb pos assms(1,2) dispatch_frame [OF d] by (simp_all add: queue_ok_def)
qed

lemma callback_refused_step:
  assumes "pending (receive_queue s) = m # ms" and "\<not> accepted m s"
  shows "\<exists>e. fst (message_callback s) = Inl e"
    and "pending (receive_queue (snd (message_callback s))) = ms"
    and "unfinished_tasks (receive_queue (snd (message_callback s))) =
           unfinished_tasks (receive_queue s)"
proof -
  let ?s1 = "s\<lparr>receive_queue := (receive_queue s)\<lparr>pending := ms\<rparr>,
              debug_log := debug_log s @ [m]\<rparr>"
  have n: "\<not> accepted m ?s1" using assms(2) by (simp add: accepted_def)
  have "\<exists>e. message_callback s = (Inl e, ?s1)"
  proof (cases "format_message m")
    case (Some e)
    then show ?thesis using callback_format_raises [OF assms(1) Some] by blast
  next
    case None
    then obtain e where "dispatch m ?s1 = Inl e"
      using n by (cases "dispatch m ?s1") (auto simp: dispatch_accepted)
    then show ?thesis using callback_dispatch_raises [OF assms(1) None] by blast
  qed
  then obtain e where cb: "message_callback s = (Inl e, ?s1)" by blast
  show "\<exists>e. fst (message_callback s) = Inl e"
    and "pending (receive_queue (snd (message_callback s))) = ms"
    and "unfinished_tasks (receive_queue (snd (message_callback s))) =
           unfinished_tasks (receive_queue s)"
    using cb by simp_all
qed

lemma ticks_drain:
  "queue_ok (receive_queue s) \<Longrightarrow> pending (receive_queue s) = ms \<Longrightarrow>
   \<forall>x \<in> set ms. accepted x s \<Longrightarrow>
   fst (ticks (length ms) s) = replicate (length ms) (Inr True) \<and>
   pending (receive_queue (snd (ticks (length ms) s))) = [] \<and>
   debug_log (snd (ticks (length ms) s)) = debug_log s @ ms"
proof (induction ms arbitrary: s)
  case Nil
  then show ?case by simp
next
  case (Cons m ms)
  obtain r s1 where cb: "message_callback s = (r, s1)" by (cases "message_callback s")
  have a: "accepted m s" using Cons.prems(3) by simp
  note step = callback_accepted_step [OF Cons.prems(2) Cons.prems(1) a]
  have r: "r = Inr True" using step(1) cb by simp
  have p1: "pending (receive_queue s1) = ms" using step(2) cb by simp
  have q1: "queue_ok (receive_queue s1)" using step(4) cb by simp
  have l1: "debug_log s1 = debug_log s @ [m]" using step(5) cb by simp
  have c1: "store_failure s1 = store_failure s" "bus_failure s1 = bus_failure s"
    using step(6,7) cb by simp_all
  have a1: "\<forall>x \<in> set ms. accepted x s1"
    using Cons.prems(3) accepted_same_conditions [OF c1] by simp
  obtain rs s2 where t: "ticks (length ms) s1 = (rs, s2)" by (cases "ticks (length ms) s1")
  have ih: "rs = replicate (length ms) (Inr True) \<and> pending (receive_queue s2) = [] \<and>
            debug_log s2 = debug_log s1 @ ms"
    using Cons.IH [OF q1 p1 a1] t by simp
  show ?case using cb r t ih l1 by simp
qed

text \<open>
  C8, as the code has it. \<^verbatim>\<open>message_callback\<close> catches nothing but \<^verbatim>\<open>Empty\<close>. When
  the first message of a receive queue that satisfies the queue's invariant is
  accepted (it is well formed, the store loads if it asks for a reload, the bus takes
  the signal if it is relayed), the invocation returns \<open>True\<close>, removes the message,
  acknowledges it with \<^verbatim>\<open>task_done\<close> and keeps the invariant; a well-formed message of
  an unrecognised class is always accepted. When the first message is not accepted, the
  invocation ends in an exception, with the message removed and not acknowledged.
  When all pending messages are accepted, as many invocations as there are messages all
  return \<open>True\<close>, process every message in order and leave the queue empty.
\<close>

theorem callback_consumes_every_accepted_event:
  assumes "pending (receive_queue s) = m # ms" and "queue_ok (receive_queue s)"
  shows "(accepted m s \<longrightarrow>
            fst (message_callback s) = Inr True \<and>
            pending (receive_queue (snd (message_callback s))) = ms \<and>
            unfinished_tasks (receive_queue (snd (message_callback s))) =
              unfinished_tasks (receive_queue s) - 1 \<and>
            queue_ok (receive_queue (snd (message_callback s)))) \<and>
         (format_message m = None \<and> m \<noteq> UpdateDevicesMessage \<and> \<not> relayed m \<longrightarrow>
            accepted m s) \<and>
         (\<not> accepted m s \<longrightarrow>
            (\<exists>e. fst (message_callback s) = Inl e) \<and>
            pending (receive_queue (snd (message_callback s))) = ms \<and>
            unfinished_tasks (receive_queue (snd (message_callback s))) =
              unfinished_tasks (receive_queue s)) \<and>
         ((\<forall>x \<in> set (m # ms). accepted x s) \<longrightarrow>
            fst (ticks (length (m # ms)) s) = replicate (length (m # ms)) (Inr True) \<and>
            pending (receive_queue (snd (ticks (length (m # ms)) s))) = [] \<and>
            debug_log (snd (ticks (length (m # ms)) s)) = debug_log s @ m # ms)"
proof (intro conjI impI)
  assume a: "accepted m s"
  note step = callback_accepted_step [OF assms a]
  show "fst (message_callback s) = Inr True" by (rule step(1))
  show "pending (receive_queue (snd (message_callback s))) = ms" by (rule step(2))
  show "unfinished_tasks (receive_queue (snd (message_callback s))) =
          unfinished_tasks (receive_queue s) - 1" by (rule step(3))
  show "queue_ok (receive_queue (snd (message_callback s)))" by (rule step(4))
next
  assume "format_message m = None \<and> m \<noteq> UpdateDevicesMessage \<and> \<not> relayed m"
  then show "accepted m s" by (simp add: accepted_def)
next
  assume n: "\<not> accepted m s"
  note step = callback_refused_step [OF assms(1) n]
  show "\<exists>e. fst (message_callback s) = Inl e" by (rule step(1))
  show "pending (receive_queue (snd (message_callback s))) = ms" by (rule step(2))
  show "unfinished_tasks (receive_queue (snd (message_callback s))) =
          unfinished_tasks (receive_queue s)" by (rule step(3))
next
  assume all: "\<forall>x \<in> set (m # ms). accepted x s"
  note d = ticks_drain [OF assms(2) assms(1) all]
  show "fst (ticks (length (m # ms)) s) = replicate (length (m # ms)) (Inr True)"
    using d by blast
  show "pending (receive_queue (snd (ticks (length (m # ms)) s))) = []"
    using d by blast
  show "debug_log (snd (ticks (length (m # ms)) s)) = debug_log s @ m # ms"
    using d by blast
qed

theorem callback_consumes_every_accepted_event_witness:
  "fst (message_callback
          (example_bridge [OtherMessage ''junk'', InviteSasSignal ''alice'' ''bob'' ''DEV1'' ''txn1'']))
     = Inr True \<and>
   pending (receive_queue (snd (message_callback
          (example_bridge [OtherMessage ''junk'', InviteSasSignal ''alice'' ''bob'' ''DEV1'' ''txn1'']))))
     = [InviteSasSignal ''alice'' ''bob'' ''DEV1'' ''txn1''] \<and>
   fst (ticks 2
          (example_bridge [OtherMessage ''junk'', InviteSasSignal ''alice'' ''bob'' ''DEV1'' ''txn1'']))
     = [Inr True, Inr True] \<and>
   emitted (snd (ticks 2
          (example_bridge [OtherMessage ''junk'', InviteSasSignal ''alice'' ''bob'' ''DEV1'' ''txn1''])))
     = [VerificationInvite ''alice'' ''bob'' ''DEV1'' ''txn1''] \<and>
   (\<exists>e. fst (message_callback
          ((example_bridge [InviteSasSignal ''alice'' ''bob'' ''DEV1'' ''txn1''])
             \<lparr>bus_failure := Some (OtherError ''the bus is gone'')\<rparr>)) = Inl e) \<and>
   unfinished_tasks (receive_queue (snd (message_callback
          ((example_bridge [InviteSasSignal ''alice'' ''bob'' ''DEV1'' ''txn1''])
             \<lparr>bus_failure := Some (OtherError ''the bus is gone'')\<rparr>)))) = 1"
proof -
  let ?s = "example_bridge [OtherMessage ''junk'', InviteSasSignal ''alice'' ''bob'' ''DEV1'' ''txn1'']"
  let ?t = "(example_bridge [InviteSasSignal ''alice'' ''bob'' ''DEV1'' ''txn1''])
             \<lparr>bus_failure := Some (OtherError ''the bus is gone'')\<rparr>"
  have p: "pending (receive_queue ?s) =
             OtherMessage ''junk'' # [InviteSasSignal ''alice'' ''bob'' ''DEV1'' ''txn1'']"
    by (simp add: example_defs)
  have q: "queue_ok (receive_queue ?s)"
    by (simp add: example_defs queue_ok_def)
  have a: "accepted (OtherMessage ''junk'') ?s"
    "accepted (InviteSasSignal ''alice'' ''bob'' ''DEV1'' ''txn1'') ?s"
    by (simp_all add: accepted_def example_defs)
  have e: "emitted (snd (ticks 2 ?s)) = [VerificationInvite ''alice'' ''bob'' ''DEV1'' ''txn1'']"
    by (simp add: example_defs numeral_2_eq_2 message_callback_def get_nowait_def task_done_def
        emit_def)
  have two: "length (OtherMessage ''junk'' # [InviteSasSignal ''alice'' ''bob'' ''DEV1'' ''txn1'']) = 2"
    by simp
  have pt: "pending (receive_queue ?t) = InviteSasSignal ''alice'' ''bob'' ''DEV1'' ''txn1'' # []"
    by (simp add: example_defs)
  have qt: "queue_ok (receive_queue ?t)"
    by (simp add: example_defs queue_ok_def)
  have nt: "\<not> accepted (InviteSasSignal ''alice'' ''bob'' ''DEV1'' ''txn1'') ?t"
    by (simp add: accepted_def)
  have ut: "unfinished_tasks (receive_queue ?t) = 1"
    by (simp add: example_defs)
  show ?thesis
    using callback_consumes_every_accepted_event [OF p q, unfolded two]
      callback_consumes_every_accepted_event [OF pt qt] a e nt ut
    by (simp add: numeral_2_eq_2 del: ticks.simps)
qed

text \<open>
  C8, as stated, fails: an instance of \<^verbatim>\<open>InviteSasSignal\<close> without its attributes
  raises \<^verbatim>\<open>AttributeError\<close> in the logging statement. The invocation ends in that
  exception with the message taken off the queue and both messages still unacknowledged;
  the host loop, which calls again only after \<open>True\<close>, makes no second call, and the
  invitation behind the malformed message is never relayed. The same happens to a
  well-formed invitation when emitting its signal raises.
\<close>

theorem malformed_event_not_consumed:
  "fst (message_callback
          (example_bridge [MalformedMessage ''InviteSasSignal'',
                           InviteSasSignal ''alice'' ''bob'' ''DEV1'' ''txn1'']))
     = Inl (AttributeError ''InviteSasSignal'') \<and>
   fst (message_callback
          (example_bridge [MalformedMessage ''InviteSasSignal'',
                           InviteSasSignal ''alice'' ''bob'' ''DEV1'' ''txn1'']))
     \<noteq> Inr True \<and>
   unfinished_tasks (receive_queue (snd (message_callback
          (example_bridge [MalformedMessage ''InviteSasSignal'',
                           InviteSasSignal ''alice'' ''bob'' ''DEV1'' ''txn1''])))) = 2 \<and>
   ticks 2 (example_bridge [MalformedMessage ''InviteSasSignal'',
                            InviteSasSignal ''alice'' ''bob'' ''DEV1'' ''txn1''])
     = ticks 1 (example_bridge [MalformedMessage ''InviteSasSignal'',
                            InviteSasSignal ''alice'' ''bob'' ''DEV1'' ''txn1'']) \<and>
   emitted (snd (ticks 2
          (example_bridge [MalformedMessage ''InviteSasSignal'',
                           InviteSasSignal ''alice'' ''bob'' ''DEV1'' ''txn1''])))
     = [] \<and>
   message_callback
     ((example_bridge [InviteSasSignal ''alice'' ''bob'' ''DEV1'' ''txn1''])
        \<lparr>bus_failure := Some (OtherError ''the bus is gone'')\<rparr>)
     = (Inl (OtherError ''the bus is gone''),
        (example_bridge [])
          \<lparr>bus_failure := Some (OtherError ''the bus is gone''),
            receive_queue := \<lparr>pending = [], unfinished_tasks = 1\<rparr>,
            debug_log := [InviteSasSignal ''alice'' ''bob'' ''DEV1'' ''txn1'']\<rparr>)"
  by (simp add: example_defs numeral_2_eq_2 message_callback_def get_nowait_def task_done_def
      emit_def)

subsection \<open>Relaying the verification events\<close>

text \<open>
  What one invocation emits for the message it takes off the queue while the bus takes
  signals: the matching signal for an invitation, a ready string, a finished
  verification and a daemon response, each with the message's fields, and nothing for
  any other message.
\<close>

lemma callback_emits:
  "pending (receive_queue s) = m # ms \<Longrightarrow> bus_failure s = None \<Longrightarrow>
   emitted (snd (message_callback s)) = emitted s @
     (case m of
        InviteSasSignal p u d t \<Rightarrow> [VerificationInvite p u d t]
      | ShowSasSignal p u d t e \<Rightarrow> [VerificationString p u d t e]
      | SasDoneSignal p u d t \<Rightarrow> [VerificationDone p u d t]
      | DaemonResponse i p c msg \<Rightarrow> [Response i p [(''code'', c), (''message'', msg)]]
      | _ \<Rightarrow> [])"
  by (cases m)
    (simp_all add: message_callback_def get_nowait_def task_done_def Let_def emit_def
      update_devices_def split: option.splits)

text \<open>
  C1. A verification-cancelled event is not relayed. The chain of tests in
  \<^verbatim>\<open>message_callback\<close> has no branch for it: the invocation that takes such an event
  off the queue logs it, acknowledges it and returns \<open>True\<close>, and the list of emitted
  signals is what it was. \<open>VerificationCancel\<close> is declared by \<^verbatim>\<open>Devices\<close> and never
  emitted, where exactly one with the event's six fields is expected.
\<close>

theorem cancelled_event_not_relayed:
  "message_callback
     (s\<lparr>receive_queue :=
          \<lparr>pending = SasCancelledSignal pan_user user_id device_id transaction_id reason code # ms,
           unfinished_tasks = Suc n\<rparr>\<rparr>) =
   (Inr True,
    s\<lparr>receive_queue := \<lparr>pending = ms, unfinished_tasks = n\<rparr>,
      debug_log := debug_log s @
        [SasCancelledSignal pan_user user_id device_id transaction_id reason code]\<rparr>) \<and>
   emitted (snd (message_callback
     (s\<lparr>receive_queue :=
          \<lparr>pending = SasCancelledSignal pan_user user_id device_id transaction_id reason code # ms,
           unfinished_tasks = Suc n\<rparr>\<rparr>))) = emitted s"
  by (simp add: message_callback_def get_nowait_def task_done_def)

subsection \<open>The device cache\<close>

lemma callback_device_list:
  "device_list (snd (message_callback s)) =
     (if take 1 (pending (receive_queue s)) = [UpdateDevicesMessage] \<and> store_failure s = None
      then load_all_devices (store s) else device_list s)"
proof (cases "pending (receive_queue s)")
  case Nil
  then show ?thesis by (simp add: callback_empty)
next
  case (Cons m ms)
  let ?s1 = "s\<lparr>receive_queue := (receive_queue s)\<lparr>pending := ms\<rparr>,
              debug_log := debug_log s @ [m]\<rparr>"
  show ?thesis
  proof (cases "format_message m")
    case (Some e)
    then have "m \<noteq> UpdateDevicesMessage" by auto
    then show ?thesis using Cons by (simp add: callback_format_raises [OF Cons Some])
  next
    case None
    show ?thesis
    proof (cases "dispatch m ?s1")
      case (Inl e)
      have "m = UpdateDevicesMessage \<Longrightarrow> store_failure s \<noteq> None"
        using Inl by (auto simp: update_devices_def split: option.splits)
      then show ?thesis
        using Cons by (auto simp: callback_dispatch_raises [OF Cons None Inl])
    next
      case (Inr s2)
      have "m = UpdateDevicesMessage \<Longrightarrow> store_failure s = None"
        using Inr by (auto simp: update_devices_def split: option.splits)
      then show ?thesis
        using Cons dispatch_device_list [OF None Inr]
        by (auto simp: callback_dispatch_returns [OF Cons None Inr])
    qed
  qed
qed

text \<open>
  C7. \<^verbatim>\<open>Verify\<close> and \<^verbatim>\<open>UnVerify\<close>, like every command-issuing operation, leave
  \<open>device_list\<close> as it was. An invocation of the callback changes it only when the
  message it takes is an \<^verbatim>\<open>UpdateDevicesMessage\<close> and the store loads, and then to what
  the store's \<^verbatim>\<open>load_all_devices\<close> returns; \<^verbatim>\<open>update_devices\<close> sets it to that or
  raises what the store raises, and the constructor sets it to that.
\<close>

theorem cache_only_refreshed:
  "device_list (snd (Verify pan_user user_id device_id s)) = device_list s \<and>
   device_list (snd (UnVerify pan_user user_id device_id s)) = device_list s \<and>
   device_list (snd (perform c s)) = device_list s \<and>
   device_list (snd (message_callback s)) =
     (if take 1 (pending (receive_queue s)) = [UpdateDevicesMessage] \<and> store_failure s = None
      then load_all_devices (store s) else device_list s) \<and>
   update_devices s =
     (case store_failure s of
        Some e \<Rightarrow> Inl e
      | None \<Rightarrow> Inr (s\<lparr>device_list := load_all_devices (store s)\<rparr>)) \<and>
   device_list (attrs_post_init rq sq st) = load_all_devices st"
proof -
  have v: "device_list (snd (Verify pan_user user_id device_id s)) = device_list s"
    using perform_device_list [of "CallVerify pan_user user_id device_id" s] by simp
  have u: "device_list (snd (UnVerify pan_user user_id device_id s)) = device_list s"
    using perform_device_list [of "CallUnVerify pan_user user_id device_id" s] by simp
  have i: "device_list (attrs_post_init rq sq st) = load_all_devices st"
    by (simp add: attrs_post_init_def)
  show ?thesis
    using v u i perform_device_list callback_device_list
    by (simp add: update_devices_def)
qed

lemma List_present:
  "dict_get (device_list s) pan_user = Some device_store \<Longrightarrow>
   List pan_user s = concat (map dict_values (dict_values device_store))"
  by (simp add: List_def dict_values_def comp_def)

lemma dict_ok_lookup:
  "dict_ok d \<Longrightarrow> (dict_get d k = Some v) = ((k, v) \<in> set d)"
  by (simp add: dict_ok_def dict_get_def)

lemma flatten_members:
  assumes "dict_ok device_store" and "\<forall>devs \<in> set (dict_values device_store). dict_ok devs"
  shows "set (concat (map dict_values (dict_values device_store))) =
         {d. \<exists>user_id device_id devs.
               dict_get device_store user_id = Some devs \<and> dict_get devs device_id = Some d}"
proof (intro set_eqI iffI)
  fix d
  assume "d \<in> set (concat (map dict_values (dict_values device_store)))"
  then obtain u devs k where m: "(u, devs) \<in> set device_store" "(k, d) \<in> set devs"
    by (auto simp: dict_values_def)
  have "dict_ok devs" using assms(2) m(1) by (force simp: dict_values_def)
  then have "dict_get devs k = Some d" using m(2) by (simp add: dict_ok_lookup)
  moreover have "dict_get device_store u = Some devs" using assms(1) m(1) by (simp add: dict_ok_lookup)
  ultimately show "d \<in> {d. \<exists>user_id device_id devs.
               dict_get device_store user_id = Some devs \<and> dict_get devs device_id = Some d}"
    by blast
next
  fix d
  assume "d \<in> {d. \<exists>user_id device_id devs.
               dict_get device_store user_id = Some devs \<and> dict_get devs device_id = Some d}"
  then obtain u k devs where g: "dict_get device_store u = Some devs" "dict_get devs k = Some d"
    by blast
  have "(u, devs) \<in> set device_store" using g(1) by (simp add: dict_get_def map_of_SomeD)
  moreover have "(k, d) \<in> set devs" using g(2) by (simp add: dict_get_def map_of_SomeD)
  ultimately show "d \<in> set (concat (map dict_values (dict_values device_store)))"
    by (force simp: dict_values_def)
qed

text \<open>
  C4. \<^verbatim>\<open>List\<close> never raises. For a pan user absent from the cache it returns the empty
  list; for one present it returns the devices of all its users, user after user in the
  order of the cache, each user's devices in their order: as many as the users' device
  dictionaries hold together, none when each of them is empty, and, the dictionaries
  having distinct keys, exactly the devices reachable by a user id and a device id.
\<close>

theorem List_flattens_cached_devices:
  "(dict_get (device_list s) pan_user = None \<longrightarrow> List pan_user s = []) \<and>
   (dict_get (device_list s) pan_user = Some device_store \<longrightarrow>
      List pan_user s = concat (map dict_values (dict_values device_store)) \<and>
      length (List pan_user s) = sum_list (map length (dict_values device_store)) \<and>
      ((\<forall>devs \<in> set (dict_values device_store). devs = []) \<longrightarrow> List pan_user s = []) \<and>
      (dict_ok device_store \<and> (\<forall>devs \<in> set (dict_values device_store). dict_ok devs) \<longrightarrow>
         set (List pan_user s) =
           {d. \<exists>user_id device_id devs.
                 dict_get device_store user_id = Some devs \<and> dict_get devs device_id = Some d}))"
proof -
  have a: "dict_get (device_list s) pan_user = None \<Longrightarrow> List pan_user s = []"
    by (simp add: List_def)
  have b: "length (concat (map dict_values (dict_values device_store))) =
           sum_list (map length (dict_values device_store))"
    by (simp add: length_concat dict_values_def comp_def)
  have c: "\<forall>devs \<in> set (dict_values device_store). devs = [] \<Longrightarrow>
           concat (map dict_values (dict_values device_store)) = []"
    by (auto simp: dict_values_def)
  show ?thesis using a b c flatten_members [of device_store] by (simp add: List_present)
qed

theorem List_flattens_cached_devices_witness:
  "List ''alice'' (example_bridge []) =
     [[(''user_id'', ''bob''), (''device_id'', ''DEV1'')],
      [(''user_id'', ''bob''), (''device_id'', ''DEV2'')],
      [(''user_id'', ''dave''), (''device_id'', ''DEV3'')]] \<and>
   List ''erin'' (example_bridge []) = [] \<and>
   List ''zoe'' (example_bridge []) = []"
  using List_flattens_cached_devices [of "example_bridge []" "''alice''"
      "[(''bob'', [(''DEV1'', [(''user_id'', ''bob''), (''device_id'', ''DEV1'')]),
                   (''DEV2'', [(''user_id'', ''bob''), (''device_id'', ''DEV2'')])]),
        (''dave'', [(''DEV3'', [(''user_id'', ''dave''), (''device_id'', ''DEV3'')])])]"]
    List_flattens_cached_devices [of "example_bridge []" "''erin''" "[]"]
    List_flattens_cached_devices [of "example_bridge []" "''zoe''" "[]"]
  by (simp add: example_defs dict_get_def dict_values_def)

text \<open>
  C9. When the cache of pan user "alice" maps user "bob" to the one device "DEV1" and
  has no entry for "carol", \<^verbatim>\<open>ListUserDevices\<close> returns that one device for "bob" and
  the empty list for "carol".
\<close>

theorem ListUserDevices_one_user:
  assumes "dict_get (device_list s) ''alice'' = Some device_store"
    and "dict_get device_store ''bob'' = Some [(''DEV1'', dev)]"
    and "dict_get device_store ''carol'' = None"
  shows "ListUserDevices ''alice'' ''bob'' s = [dev] \<and> ListUserDevices ''alice'' ''carol'' s = []"
  using assms by (auto simp: ListUserDevices_def dict_values_def dict_get_def)

theorem ListUserDevices_one_user_witness:
  "ListUserDevices ''alice'' ''bob''
     ((example_bridge [])\<lparr>device_list :=
        [(''alice'', [(''bob'', [(''DEV1'', [(''device_id'', ''DEV1'')])])])]\<rparr>) =
     [[(''device_id'', ''DEV1'')]] \<and>
   ListUserDevices ''alice'' ''carol''
     ((example_bridge [])\<lparr>device_list :=
        [(''alice'', [(''bob'', [(''DEV1'', [(''device_id'', ''DEV1'')])])])]\<rparr>) = []"
  using ListUserDevices_one_user
    [of "(example_bridge [])\<lparr>device_list :=
        [(''alice'', [(''bob'', [(''DEV1'', [(''device_id'', ''DEV1'')])])])]\<rparr>"
        "[(''bob'', [(''DEV1'', [(''device_id'', ''DEV1'')])])]" "[(''device_id'', ''DEV1'')]"]
  by (simp add: dict_get_def)

section \<open>Properties of pantalaimon/config.py\<close>

subsection \<open>Log levels\<close>

lemma lower_idem_words:
  "lower ''info'' = ''info''" "lower ''warnig'' = ''warnig''"
  by (simp_all add: lower_def lower_char_def)

text \<open>
  C10. \<^verbatim>\<open>parse_log_level\<close> returns a level for every string and looks only at the
  string's lower-case form: "info", "warning", "error" and "debug" in any capitalisation
  give their level, and every other string gives \<open>WARNING\<close>, among them "warnig", the
  default \<^verbatim>\<open>PanConfigParser\<close> sets for \<^verbatim>\<open>LogLevel\<close>.
\<close>

theorem parse_log_level_total:
  "(lower v = ''info'' \<longrightarrow> parse_log_level v = INFO) \<and>
   (lower v = ''warning'' \<longrightarrow> parse_log_level v = WARNING) \<and>
   (lower v = ''error'' \<longrightarrow> parse_log_level v = ERROR) \<and>
   (lower v = ''debug'' \<longrightarrow> parse_log_level v = DEBUG) \<and>
   (lower v \<notin> {''info'', ''warning'', ''error'', ''debug''} \<longrightarrow> parse_log_level v = WARNING) \<and>
   (lower v = lower w \<longrightarrow> parse_log_level v = parse_log_level w) \<and>
   parse_log_level ''warnig'' = WARNING \<and>
   map_option parse_log_level (dict_get PanConfigParser_defaults ''LogLevel'') = Some WARNING"
  by (simp add: parse_log_level_def Let_def lower_idem_words PanConfigParser_defaults_def dict_get_def)

theorem parse_log_level_total_witness:
  "parse_log_level ''INFO'' = INFO \<and> parse_log_level ''Warning'' = WARNING \<and>
   parse_log_level ''eRRoR'' = ERROR \<and> parse_log_level ''Debug'' = DEBUG \<and>
   parse_log_level ''verbose'' = WARNING \<and> parse_log_level ''DEBUG'' = parse_log_level ''debug''"
  using parse_log_level_total [of "''INFO''"] parse_log_level_total [of "''Warning''"]
    parse_log_level_total [of "''eRRoR''"] parse_log_level_total [of "''Debug''"]
    parse_log_level_total [of "''verbose''"] parse_log_level_total [of "''DEBUG''" "''debug''"]
    parse_log_level_total [of "''debug''"]
  by (simp add: lower_def lower_char_def char_of_eq_iff)

subsection \<open>Duplicate listen addresses\<close>

text \<open>
  A getter that raises either passes on what fetching the option raised or raises a
  \<^verbatim>\<open>ValueError\<close> of its converter.
\<close>

lemma raising_Inl: "raising r = Inl e \<Longrightarrow> \<exists>m. e = ValueError m"
  by (cases r) (auto simp: raising_def)

lemma parse_address_Inl: "parse_address L v = Inl e \<Longrightarrow> \<exists>m. e = ValueError m"
  by (auto simp: parse_address_def dest: raising_Inl split: if_splits)

lemma parse_url_Inl: "parse_url L v = Inl e \<Longrightarrow> \<exists>m. e = ValueError m"
  by (auto simp: parse_url_def dest: raising_Inl split: if_splits sum.splits)

lemma get_conv_Inl:
  "(\<And>v e. conv v = Inl e \<Longrightarrow> \<exists>m. e = ValueError m) \<Longrightarrow> get_conv conv sec opt = Inl e \<Longrightarrow>
   (\<exists>m. e = ValueError m) \<or> sec opt = Inl e"
  by (auto simp: get_conv_def split: option.splits sum.splits)

lemma getters_Inl:
  "getaddress L sec opt = Inl e \<Longrightarrow> (\<exists>m. e = ValueError m) \<or> sec opt = Inl e"
  "geturl L sec opt = Inl e \<Longrightarrow> (\<exists>m. e = ValueError m) \<or> sec opt = Inl e"
  "getint L sec opt = Inl e \<Longrightarrow> (\<exists>m. e = ValueError m) \<or> sec opt = Inl e"
  "getboolean L sec opt = Inl e \<Longrightarrow> (\<exists>m. e = ValueError m) \<or> sec opt = Inl e"
  unfolding getaddress_def geturl_def getint_def getboolean_def
  by (erule get_conv_Inl [rotated], erule parse_address_Inl parse_url_Inl raising_Inl)+

lemma read_sections_step:
  assumes "name \<noteq> ''Default''" and "read_sections L ((name, sec) # rest) S srv = Inr r"
  shows "\<exists>hs a p b x.
           geturl L sec ''Homeserver'' = Inr (Some hs) \<and>
           getaddress L sec ''ListenAddress'' = Inr a \<and>
           getint L sec ''ListenPort'' = Inr p \<and>
           getboolean L sec ''SSL'' = Inr b \<and>
           geturl L sec ''Proxy'' = Inr x \<and> (a, p) \<notin> S \<and>
           read_sections L rest (insert (a, p) S)
             (srv(name \<mapsto> \<lparr>homeserver = hs, listen_address = a, listen_port = p,
                              proxy = x, ssl = b\<rparr>)) = Inr r"
  using assms by (simp add: Let_def split: sum.splits option.splits if_splits)

lemma read_sections_step_ok:
  assumes "name \<noteq> ''Default''"
    and "geturl L sec ''Homeserver'' = Inr (Some hs)"
    and "getaddress L sec ''ListenAddress'' = Inr a"
    and "getint L sec ''ListenPort'' = Inr p"
    and "getboolean L sec ''SSL'' = Inr b"
    and "geturl L sec ''Proxy'' = Inr x"
    and "(a, p) \<notin> S"
  shows "read_sections L ((name, sec) # rest) S srv =
         read_sections L rest (insert (a, p) S)
             (srv(name \<mapsto> \<lparr>homeserver = hs, listen_address = a, listen_port = p,
                              proxy = x, ssl = b\<rparr>))"
  using assms by (simp add: Let_def)

text \<open>
  What leaves the loop is a \<^verbatim>\<open>ValueError\<close>, a \<^verbatim>\<open>PanConfigError\<close>, or what fetching an
  option of one of the sections raised.
\<close>

lemma read_sections_Inl:
  "read_sections L secs S srv = Inl e \<Longrightarrow>
   (\<exists>m. e = ValueError m) \<or> (\<exists>m. e = PanConfigError m) \<or>
   (\<exists>name sec opt. (name, sec) \<in> set secs \<and> name \<noteq> ''Default'' \<and> sec opt = Inl e)"
proof (induction secs arbitrary: S srv)
  case Nil
  then show ?case by simp
next
  case (Cons a secs)
  obtain name sec where a: "a = (name, sec)" by (cases a)
  have later: "(\<exists>m. e = ValueError m) \<or> (\<exists>m. e = PanConfigError m) \<or>
      (\<exists>name sec opt. (name, sec) \<in> set (a # secs) \<and> name \<noteq> ''Default'' \<and> sec opt = Inl e)"
    if "read_sections L secs S' srv' = Inl e" for S' srv'
  proof -
    from Cons.IH [OF that]
    consider "\<exists>m. e = ValueError m" | "\<exists>m. e = PanConfigError m"
      | n c opt where "(n, c) \<in> set secs" "n \<noteq> ''Default''" "c opt = Inl e"
      by blast
    then show ?thesis
    proof cases
      case 3
      then have "(n, c) \<in> set (a # secs)" by simp
      then show ?thesis using 3 by blast
    qed auto
  qed
  show ?case
  proof (cases "name = ''Default''")
    case True
    then have "read_sections L secs S srv = Inl e" using Cons.prems a by simp
    then show ?thesis by (rule later)
  next
    case False
    show ?thesis
    proof (cases "\<exists>S' srv'. read_sections L secs S' srv' = Inl e")
      case True
      then obtain S' srv' where "read_sections L secs S' srv' = Inl e" by blast
      then show ?thesis by (rule later)
    next
      case no: False
      have "(\<exists>m. e = ValueError m) \<or> (\<exists>m. e = PanConfigError m) \<or> (\<exists>opt. sec opt = Inl e)"
        using Cons.prems no False a
        by (auto simp: Let_def split: sum.splits option.splits if_splits dest!: getters_Inl)
      then consider "\<exists>m. e = ValueError m" | "\<exists>m. e = PanConfigError m"
        | opt where "sec opt = Inl e"
        by blast
      then show ?thesis
      proof cases
        case 3
        have "(name, sec) \<in> set (a # secs)" using a by simp
        then show ?thesis using 3 False by blast
      qed auto
    qed
  qed
qed

text \<open>
  A run of the loop that returns has found the listen tuples of the sections pairwise
  distinct and none of them in the set it started with.
\<close>

lemma read_sections_Inr_distinct:
  "read_sections L secs S srv = Inr r \<Longrightarrow>
   distinct (listen_tuples L secs) \<and>
   set (listen_tuples L secs) \<inter> (\<lambda>(a, p). (Inr a, Inr p)) ` S = {}"
proof (induction secs arbitrary: S srv)
  case Nil
  then show ?case by (simp add: listen_tuples_def)
next
  case (Cons a secs)
  obtain name sec where a: "a = (name, sec)" by (cases a)
  show ?case
  proof (cases "name = ''Default''")
    case True
    then show ?thesis using Cons a by (simp add: listen_tuples_def)
  next
    case False
    from read_sections_step [OF False] Cons.prems a
    obtain hs ad p b x where g: "getaddress L sec ''ListenAddress'' = Inr ad"
      "getint L sec ''ListenPort'' = Inr p" "(ad, p) \<notin> S"
      and rest: "read_sections L secs (insert (ad, p) S)
             (srv(name \<mapsto> \<lparr>homeserver = hs, listen_address = ad, listen_port = p,
                              proxy = x, ssl = b\<rparr>)) = Inr r"
      by blast
    have ih: "distinct (listen_tuples L secs) \<and>
          set (listen_tuples L secs) \<inter> (\<lambda>(a, p). (Inr a, Inr p)) ` (insert (ad, p) S) = {}"
      using Cons.IH [OF rest] .
    have lt: "listen_tuples L (a # secs) = (Inr ad, Inr p) # listen_tuples L secs"
      using a False g by (simp add: listen_tuples_def)
    have "(Inr ad, Inr p) \<notin> (\<lambda>(a, p). (Inr a, Inr p)) ` S" using g(3) by auto
    then show ?thesis using ih lt by auto
  qed
qed

lemma read_sections_ok:
  "\<forall>(name, sec) \<in> set secs. name \<noteq> ''Default'' \<longrightarrow> section_ok L sec \<Longrightarrow>
   distinct (listen_tuples L secs) \<Longrightarrow>
   set (listen_tuples L secs) \<inter> (\<lambda>(a, p). (Inr a, Inr p)) ` S = {} \<Longrightarrow>
   \<exists>r. read_sections L secs S srv = Inr r"
proof (induction secs arbitrary: S srv)
  case Nil
  then show ?case by simp
next
  case (Cons a secs)
  obtain name sec where a: "a = (name, sec)" by (cases a)
  show ?case
  proof (cases "name = ''Default''")
    case True
    then show ?thesis using Cons a by (simp add: listen_tuples_def)
  next
    case False
    have ok: "section_ok L sec" using Cons.prems(1) a False by simp
    then obtain hs ad p b x where g: "geturl L sec ''Homeserver'' = Inr (Some hs)"
      "getaddress L sec ''ListenAddress'' = Inr ad" "getint L sec ''ListenPort'' = Inr p"
      "getboolean L sec ''SSL'' = Inr b" "geturl L sec ''Proxy'' = Inr x"
      unfolding section_ok_def
      by (cases "geturl L sec ''Homeserver''"; cases "getaddress L sec ''ListenAddress''";
          cases "getint L sec ''ListenPort''"; cases "getboolean L sec ''SSL''";
          cases "geturl L sec ''Proxy''") auto
    have lt: "listen_tuples L (a # secs) = (Inr ad, Inr p) # listen_tuples L secs"
      using a False g by (simp add: listen_tuples_def)
    have notin: "(ad, p) \<notin> S" using Cons.prems(3) lt by auto
    have d: "distinct (listen_tuples L secs)" using Cons.prems(2) lt by simp
    have dis: "set (listen_tuples L secs) \<inter> (\<lambda>(a, p). (Inr a, Inr p)) ` (insert (ad, p) S) = {}"
      using Cons.prems(2,3) lt by auto
    have all: "\<forall>(name, sec) \<in> set secs. name \<noteq> ''Default'' \<longrightarrow> section_ok L sec"
      using Cons.prems(1) by simp
    show ?thesis
      using Cons.IH [OF all d dis] read_sections_step_ok [OF False g notin] a by simp
  qed
qed

lemma listen_tuples_mset:
  "mset secs = mset secs' \<Longrightarrow> distinct (listen_tuples L secs) = distinct (listen_tuples L secs')"
proof -
  assume "mset secs = mset secs'"
  then have "mset (listen_tuples L secs) = mset (listen_tuples L secs')"
    unfolding listen_tuples_def mset_map mset_filter by simp
  then show ?thesis by (rule mset_eq_imp_distinct_iff)
qed

text \<open>
  What the loop does about two sections with the same listen tuple, whatever the order
  of the sections: \<open>read\<close> never returns. What it raises is \<^verbatim>\<open>PanConfigError\<close> when
  every fetch of an option returns; an error raised by a fetch passes through the
  handler around the loop.
\<close>

lemma duplicate_listen_pair_never_read:
  assumes "mset secs = mset ((name1, sec1) # (name2, sec2) # others)"
    and "name1 \<noteq> ''Default''" and "name2 \<noteq> ''Default''"
    and "getaddress L sec1 ''ListenAddress'' = getaddress L sec2 ''ListenAddress''"
    and "getint L sec1 ''ListenPort'' = getint L sec2 ''ListenPort''"
  shows "\<exists>e. read L (Inr \<lparr>default_section = d, file_sections = secs\<rparr>) self = Inl e"
    and "(\<forall>(name, sec) \<in> set secs. \<forall>opt. \<not> isl (sec opt)) \<Longrightarrow> \<not> isl (d ''LogLevel'') \<Longrightarrow>
         \<exists>m. read L (Inr \<lparr>default_section = d, file_sections = secs\<rparr>) self =
                Inl (PanConfigError m)"
proof -
  let ?config = "\<lparr>default_section = d, file_sections = secs\<rparr>"
  have "\<not> distinct (listen_tuples L ((name1, sec1) # (name2, sec2) # others))"
    using assms(2-5) by (simp add: listen_tuples_def)
  then have nd: "\<not> distinct (listen_tuples L secs)"
    using listen_tuples_mset [OF assms(1), of L] by simp
  have "listen_tuples L (config_items ?config) = listen_tuples L secs"
    by (simp add: config_items_def listen_tuples_def)
  then have "\<not> distinct (listen_tuples L (config_items ?config))" using nd by simp
  then have "\<forall>r. read_sections L (config_items ?config) {} (servers self) \<noteq> Inr r"
    using read_sections_Inr_distinct by blast
  then obtain e where e: "read_sections L (config_items ?config) {} (servers self) = Inl e"
    by (cases "read_sections L (config_items ?config) {} (servers self)") auto
  show "\<exists>e. read L (Inr ?config) self = Inl e"
    using e by (auto simp: read_def split: sum.splits)
  assume fetched: "\<forall>(name, sec) \<in> set secs. \<forall>opt. \<not> isl (sec opt)"
    and lvl: "\<not> isl (d ''LogLevel'')"
  have kind: "(\<exists>m. e = ValueError m) \<or> (\<exists>m. e = PanConfigError m)"
  proof -
    from read_sections_Inl [OF e]
    consider "\<exists>m. e = ValueError m" | "\<exists>m. e = PanConfigError m"
      | n c opt where "(n, c) \<in> set (config_items ?config)" "n \<noteq> ''Default''" "c opt = Inl e"
      by blast
    then show ?thesis
    proof cases
      case 3
      then have "(n, c) \<in> set secs" by (simp add: config_items_def)
      then have "\<not> isl (c opt)" using fetched by blast
      then show ?thesis using 3 by simp
    qed auto
  qed
  have "\<not> isl (getloglevel d ''LogLevel'')"
    using lvl by (auto simp: getloglevel_def get_conv_def split: sum.splits option.splits)
  then show "\<exists>m. read L (Inr ?config) self = Inl (PanConfigError m)"
    using e kind by (auto simp: read_def split: sum.splits)
qed

text \<open>
  Sections with pairwise distinct listen tuples, none of them at fault on its own, are
  read.
\<close>

lemma distinct_listen_pairs_read:
  assumes "\<forall>(name, sec) \<in> set secs. name \<noteq> ''Default'' \<longrightarrow> section_ok L sec"
    and "distinct (listen_tuples L secs)" and "\<not> isl (d ''LogLevel'')"
  shows "\<exists>cfg. read L (Inr \<lparr>default_section = d, file_sections = secs\<rparr>) self = Inr cfg"
proof -
  let ?config = "\<lparr>default_section = d, file_sections = secs\<rparr>"
  have "\<exists>r. read_sections L secs {} (servers self) = Inr r"
    using assms(1,2) read_sections_ok [of secs L "{}" "servers self"] by simp
  then obtain r where r: "read_sections L (config_items ?config) {} (servers self) = Inr r"
    by (auto simp: config_items_def)
  have "\<not> isl (getloglevel d ''LogLevel'')"
    using assms(3) by (auto simp: getloglevel_def get_conv_def split: sum.splits option.splits)
  then show ?thesis using r by (auto simp: read_def split: sum.splits)
qed

lemmas config_example_defs = example_lib_def example_proxy_def example_config_def
  PanConfigParser_defaults_def dict_get_def getaddress_def getint_def geturl_def getboolean_def
  get_conv_def parse_address_def parse_url_def raising_def lower_def lower_char_def
  char_of_eq_iff

lemma read_example_duplicate:
  "read example_lib
     (Inr \<lparr>default_section = example_proxy [],
           file_sections =
             [(''alice'', example_proxy [(''Homeserver'', ''https://example.org'')]),
              (''bob'', example_proxy [(''Homeserver'', ''https://example.org''),
                                       (''ListenAddress'', ''127.0.0.1'')])]\<rparr>)
     example_config =
   Inl (PanConfigError
          ''The listen address/port combination for section bob was already defined before.'')"
  by (simp add: read_def config_items_def getloglevel_def Let_def config_example_defs)

text \<open>
  What \<^verbatim>\<open>config.read\<close> raises when it cannot decode the file is no
  \<^verbatim>\<open>configparser.Error\<close> and leaves \<open>read\<close> as it is.
\<close>

lemma read_decode_error:
  "read L (Inl (UnicodeDecodeError m)) self = Inl (UnicodeDecodeError m)"
  by (simp add: read_def)

text \<open>
  C6. Two sections that both listen on the default address and port, the second with a
  homeserver whose value has a percent sign the interpolation refuses. The loop stores
  the first section; fetching the homeserver of the second raises the interpolation
  error before the listen tuple is looked at; the handler around the loop catches
  \<^verbatim>\<open>ValueError\<close> only, so \<open>read\<close> ends in the \<^verbatim>\<open>configparser\<close> error and not in the
  \<^verbatim>\<open>PanConfigError\<close> that two sections with one listen tuple are to be rejected with,
  and that the docstring of \<open>read\<close> announces for a syntax error of the file.
\<close>

theorem duplicate_with_interpolation_error_raises_other:
  "getaddress example_lib (example_proxy [(''Homeserver'', ''https://example.org'')])
     ''ListenAddress'' = Inr (Some (IPv4Address 2130706433)) \<and>
   getaddress example_lib (example_proxy [(''Homeserver'', ''https://example.org/%20x'')])
     ''ListenAddress'' = Inr (Some (IPv4Address 2130706433)) \<and>
   getint example_lib (example_proxy [(''Homeserver'', ''https://example.org'')])
     ''ListenPort'' = Inr (Some 8009) \<and>
   getint example_lib (example_proxy [(''Homeserver'', ''https://example.org/%20x'')])
     ''ListenPort'' = Inr (Some 8009) \<and>
   read example_lib
     (Inr \<lparr>default_section = example_proxy [],
           file_sections =
             [(''alice'', example_proxy [(''Homeserver'', ''https://example.org'')]),
              (''bob'', example_proxy [(''Homeserver'', ''https://example.org/%20x'')])]\<rparr>)
     example_config =
   Inl (ConfigParserError ''% must be followed by % or (, found: %20x'')"
  by (simp add: read_def config_items_def getloglevel_def Let_def config_example_defs)

end
